theory Spec2Isabelle
  imports Main "HOL-Library.Multiset" "HOL-Library.Char_ord" "HOL-Library.List_Lexorder"
begin

section \<open>Values read from the JSON export\<close>

text \<open>
  \<^verbatim>\<open>json.load\<close> yields Python values built from \<^verbatim>\<open>None\<close>, booleans, numbers,
  strings, lists and dicts. A dict is kept as an association list whose keys are
  distinct (the parser keeps one value per key); \<open>map_of\<close> is the lookup.
  Strings are byte strings: a character outside ASCII is the bytes of its UTF-8 form.
  Numbers are integers here; nothing below computes with them.
\<close>

datatype json =
    JNull
  | JBool bool
  | JNum int
  | JStr string
  | JArr "json list"
  | JObj "(string \<times> json) list"

type_synonym pydict = "(string \<times> json) list"

text \<open>The exceptions the modelled code can raise.\<close>

datatype error =
    KeyError string
  | AttributeError
  | TypeError

text \<open>\<^verbatim>\<open>d.get(k, default)\<close>\<close>

definition dict_get :: "pydict \<Rightarrow> string \<Rightarrow> json \<Rightarrow> json" where
  "dict_get d k dflt = (case map_of d k of None \<Rightarrow> dflt | Some v \<Rightarrow> v)"

text \<open>
  The number of code points of a string: the bytes of its UTF-8 form that are not
  continuation bytes (\<open>0x80\<close> to \<open>0xBF\<close>).
\<close>

definition code_points :: "string \<Rightarrow> nat" where
  "code_points s = length (filter (\<lambda>c. \<not> (128 \<le> (of_char c :: nat) \<and> (of_char c :: nat) < 192)) s)"

text \<open>\<^verbatim>\<open>len(v)\<close>: defined on strings, lists and dicts, a \<^verbatim>\<open>TypeError\<close> otherwise.\<close>

fun py_len :: "json \<Rightarrow> error + nat" where
  "py_len (JStr s) = Inr (code_points s)"
| "py_len (JArr xs) = Inr (length xs)"
| "py_len (JObj kvs) = Inr (length kvs)"
| "py_len _ = Inl TypeError"

text \<open>Truth value of a Python object, as \<^verbatim>\<open>if v\<close> tests it.\<close>

fun truthy :: "json \<Rightarrow> bool" where
  "truthy JNull = False"
| "truthy (JBool b) = b"
| "truthy (JNum n) = (n \<noteq> 0)"
| "truthy (JStr s) = (s \<noteq> [])"
| "truthy (JArr xs) = (xs \<noteq> [])"
| "truthy (JObj kvs) = (kvs \<noteq> [])"

text \<open>
  The elements a \<^verbatim>\<open>for\<close> loop visits: the items of a list, the characters of a
  string (byte by byte here; the one loop below fails on the first of them either
  way), the keys of a dict; anything else is not iterable.
\<close>

fun py_iter :: "json \<Rightarrow> error + json list" where
  "py_iter (JArr xs) = Inr xs"
| "py_iter (JStr s) = Inr (map (\<lambda>c. JStr [c]) s)"
| "py_iter (JObj kvs) = Inr (map (\<lambda>kv. JStr (fst kv)) kvs)"
| "py_iter _ = Inl TypeError"

text \<open>
  \<^verbatim>\<open>str.lower()\<close> on the ASCII letters. No character outside ASCII lowers to a
  letter of \<^verbatim>\<open>website\<close>, so the comparison below is decided by the ASCII part.
\<close>

definition lower_char :: "char \<Rightarrow> char" where
  "lower_char c =
     (let n = (of_char c :: nat) in if 65 \<le> n \<and> n \<le> 90 then char_of (n + 32) else c)"

definition lower :: "string \<Rightarrow> string" where
  "lower s = map lower_char s"

section \<open>The Normalizer: \<^verbatim>\<open>process_data\<close>\<close>

text \<open>
  One entry of \<^verbatim>\<open>processed_data\<close>. The source stores whatever the raw record holds,
  so the fields are of type \<open>json\<close> right after normalisation (\<open>raw_item\<close>); the
  aggregation and the callbacks are modelled on records whose text fields are strings
  and whose categories are a list of strings (\<open>exhibitor\<close>).
\<close>

record ('s, 'c) item =
  company_name :: 's
  booth_location :: 's
  pavilion :: 's
  categories_count :: nat
  has_description :: nat
  social_media_count :: nat
  description :: 's
  description_ko :: 's
  social_media :: json
  contact_details :: json
  website :: 's
  categories :: 'c

type_synonym raw_item = "(json, json) item"
type_synonym exhibitor = "(string, string list) item"

text \<open>
  \<^verbatim>\<open>next((contact['url'] for contact in contacts
           if contact.get('type', '').lower() == 'website'), '')\<close>
  The generator is lazy: contacts after the first match are never looked at.
  \<^verbatim>\<open>contact.get\<close> exists on dicts only, \<^verbatim>\<open>.lower()\<close> on strings only, and
  \<^verbatim>\<open>contact['url']\<close> raises \<^verbatim>\<open>KeyError\<close> when the key is missing.
\<close>

fun website_of :: "json list \<Rightarrow> error + json" where
  "website_of [] = Inr (JStr [])"
| "website_of (contact # rest) =
     (case contact of
        JObj c \<Rightarrow>
          (case dict_get c ''type'' (JStr []) of
             JStr t \<Rightarrow>
               if lower t = ''website''
               then (case map_of c ''url'' of
                       None \<Rightarrow> Inl (KeyError ''url'')
                     | Some u \<Rightarrow> Inr u)
               else website_of rest
           | _ \<Rightarrow> Inl AttributeError)
      | _ \<Rightarrow> Inl AttributeError)"

text \<open>The body of the loop of \<^verbatim>\<open>process_data\<close>, in the source's evaluation order.\<close>

definition process_exhibitor :: "pydict \<Rightarrow> error + raw_item" where
  "process_exhibitor exhibitor =
     (case py_iter (dict_get exhibitor ''contact_details'' (JArr [])) of
        Inl e \<Rightarrow> Inl e
      | Inr contacts \<Rightarrow>
     (case website_of contacts of
        Inl e \<Rightarrow> Inl e
      | Inr website_url \<Rightarrow>
     (case py_len (dict_get exhibitor ''categories'' (JArr [])) of
        Inl e \<Rightarrow> Inl e
      | Inr ncat \<Rightarrow>
     (case py_len (dict_get exhibitor ''social_media'' (JArr [])) of
        Inl e \<Rightarrow> Inl e
      | Inr nsm \<Rightarrow>
          Inr \<lparr> company_name = dict_get exhibitor ''company_name'' (JStr ''Unknown''),
                booth_location = dict_get exhibitor ''booth_location'' (JStr ''Unknown''),
                pavilion = dict_get exhibitor ''pavilion'' (JStr ''None''),
                categories_count = ncat,
                has_description =
                  (if truthy (dict_get exhibitor ''description_ko'' JNull) then 1 else 0),
                social_media_count = nsm,
                description = dict_get exhibitor ''description'' (JStr []),
                description_ko = dict_get exhibitor ''description_ko'' (JStr []),
                social_media = dict_get exhibitor ''social_media'' (JArr []),
                contact_details = dict_get exhibitor ''contact_details'' (JArr []),
                website = website_url,
                categories = dict_get exhibitor ''categories'' (JArr []) \<rparr>))))"

fun process_data :: "pydict list \<Rightarrow> error + raw_item list" where
  "process_data [] = Inr []"
| "process_data (exhibitor # rest) =
     (case process_exhibitor exhibitor of
        Inl e \<Rightarrow> Inl e
      | Inr it \<Rightarrow>
          (case process_data rest of
             Inl e \<Rightarrow> Inl e
           | Inr its \<Rightarrow> Inr (it # its)))"

text \<open>
  The view of a normalised record with the field types of the data model: text fields
  that are strings, categories that are a list of strings. It is undefined (\<open>None\<close>)
  on a record that holds anything else in those fields.
\<close>

fun as_str :: "json \<Rightarrow> string option" where
  "as_str (JStr s) = Some s"
| "as_str _ = None"

fun as_str_list :: "json \<Rightarrow> string list option" where
  "as_str_list (JArr xs) = those (map as_str xs)"
| "as_str_list _ = None"

definition typed_item :: "raw_item \<Rightarrow> exhibitor option" where
  "typed_item it =
     Option.bind (as_str (company_name it)) (\<lambda>cn.
     Option.bind (as_str (booth_location it)) (\<lambda>bl.
     Option.bind (as_str (pavilion it)) (\<lambda>pv.
     Option.bind (as_str (description it)) (\<lambda>d.
     Option.bind (as_str (description_ko it)) (\<lambda>dk.
     Option.bind (as_str (website it)) (\<lambda>w.
     Option.bind (as_str_list (categories it)) (\<lambda>cs.
       Some \<lparr> company_name = cn, booth_location = bl, pavilion = pv,
              categories_count = categories_count it,
              has_description = has_description it,
              social_media_count = social_media_count it,
              description = d, description_ko = dk,
              social_media = social_media it,
              contact_details = contact_details it,
              website = w, categories = cs \<rparr>)))))))"

section \<open>Counting\<close>

text \<open>
  \<^verbatim>\<open>collections.Counter\<close>: a dict from element to count, in the order in which the
  elements were first seen.
\<close>

fun counter_add :: "('a \<times> nat) list \<Rightarrow> 'a \<Rightarrow> ('a \<times> nat) list" where
  "counter_add [] x = [(x, 1)]"
| "counter_add ((y, n) # rest) x =
     (if x = y then (y, n + 1) # rest else (y, n) # counter_add rest x)"

definition Counter :: "'a list \<Rightarrow> ('a \<times> nat) list" where
  "Counter xs = foldl counter_add [] xs"

text \<open>
  Sorting rows by descending count. \<open>sort_key\<close> is stable, as \<^verbatim>\<open>sorted\<close> with
  \<^verbatim>\<open>reverse=True\<close> is: rows of equal count keep their order. (pandas sorts
  \<^verbatim>\<open>value_counts\<close> and \<^verbatim>\<open>sort_values\<close> with an algorithm that does not promise
  this on long columns; no property below depends on the order of equal counts.)
\<close>

definition by_count_desc :: "('a \<times> nat) list \<Rightarrow> ('a \<times> nat) list" where
  "by_count_desc rows = sort_key (\<lambda>row. - int (snd row)) rows"

text \<open>\<^verbatim>\<open>Counter.most_common(n)\<close>\<close>

definition most_common :: "nat \<Rightarrow> ('a \<times> nat) list \<Rightarrow> ('a \<times> nat) list" where
  "most_common n counts = take n (by_count_desc counts)"

text \<open>\<^verbatim>\<open>Series.value_counts().reset_index()\<close>: one row per value that occurs.\<close>

definition value_counts :: "'a list \<Rightarrow> ('a \<times> nat) list" where
  "value_counts column = by_count_desc (Counter column)"

section \<open>The Aggregator: \<^verbatim>\<open>create_visualizations\<close>\<close>

record viz_data =
  df :: "exhibitor list"
  top_categories :: "(string \<times> nat) list"
  top_30_category_names :: "string set"
  pavilion_counts :: "(string \<times> nat) list"
  description_counts :: "(string option \<times> nat) list"
  social_media_dist :: "(nat \<times> nat) list"
  others_real_count :: nat

text \<open>\<^verbatim>\<open>dict(category_counts.most_common(30))\<close> over the flattened categories.\<close>

definition top_30_categories :: "exhibitor list \<Rightarrow> (string \<times> nat) list" where
  "top_30_categories records = most_common 30 (Counter (concat (map categories records)))"

text \<open>\<^verbatim>\<open>not set(exhibitor['categories']).intersection(names)\<close>\<close>

definition no_top_category :: "string set \<Rightarrow> exhibitor \<Rightarrow> bool" where
  "no_top_category names exhibitor = (set (categories exhibitor) \<inter> names = {})"

text \<open>
  The loop of lines 71 to 76, whose result the source names \<^verbatim>\<open>others_count\<close> and
  copies into the local \<^verbatim>\<open>real_others_count\<close>.
\<close>

definition real_others_count :: "exhibitor list \<Rightarrow> nat" where
  "real_others_count records =
     length (filter (no_top_category (set (map fst (top_30_categories records)))) records)"

text \<open>
  The category frame: the top 30 rows and the row \<^verbatim>\<open>Others\<close>; when
  \<^verbatim>\<open>Artificial Intelligence\<close> is a key of the top 30, the count of every row named
  \<^verbatim>\<open>Others\<close> is overwritten with its count.
\<close>

definition top_categories_frame :: "exhibitor list \<Rightarrow> (string \<times> nat) list" where
  "top_categories_frame records =
     (let top = top_30_categories records;
          frame = top @ [(''Others'', real_others_count records)]
      in case map_of top ''Artificial Intelligence'' of
           None \<Rightarrow> frame
         | Some ai_count \<Rightarrow>
             map (\<lambda>row. if fst row = ''Others'' then (fst row, ai_count) else row) frame)"

definition pavilion_frame :: "exhibitor list \<Rightarrow> (string \<times> nat) list" where
  "pavilion_frame records =
     take 15 (by_count_desc
       (filter (\<lambda>row. fst row \<noteq> ''None'') (value_counts (map pavilion records))))"

text \<open>\<^verbatim>\<open>.map({1: 'Yes', 0: 'No'})\<close>; a value that is not a key maps to NaN (\<open>None\<close>).\<close>

definition yes_no :: "nat \<Rightarrow> string option" where
  "yes_no v = (if v = 1 then Some ''Yes'' else if v = 0 then Some ''No'' else None)"

definition description_frame :: "exhibitor list \<Rightarrow> (string option \<times> nat) list" where
  "description_frame records =
     map (\<lambda>row. (yes_no (fst row), snd row)) (value_counts (map has_description records))"

definition social_media_frame :: "exhibitor list \<Rightarrow> (nat \<times> nat) list" where
  "social_media_frame records =
     sort_key fst (value_counts (map social_media_count records))"

text \<open>
  \<^verbatim>\<open>pd.DataFrame(processed_data)\<close> takes its columns from the keys of the records.
  From an empty list it has no column at all, and \<^verbatim>\<open>df['categories']\<close> on line 60
  raises \<^verbatim>\<open>KeyError: 'categories'\<close>. The field \<^verbatim>\<open>others_real_count\<close> of the result
  is the literal 507 of line 94.
\<close>

definition create_visualizations :: "exhibitor list \<Rightarrow> error + viz_data" where
  "create_visualizations processed_data =
     (if processed_data = [] then Inl (KeyError ''categories'')
      else Inr \<lparr> df = processed_data,
                 top_categories = top_categories_frame processed_data,
                 top_30_category_names = set (map fst (top_30_categories processed_data)),
                 pavilion_counts = pavilion_frame processed_data,
                 description_counts = description_frame processed_data,
                 social_media_dist = social_media_frame processed_data,
                 others_real_count = 507 \<rparr>)"

text \<open>
  \<^verbatim>\<open>main\<close> up to the tables: \<^verbatim>\<open>create_visualizations(process_data(data))\<close>. The
  result is \<open>None\<close> where a normalised record is outside the typed view above.
\<close>

definition main_viz_data :: "pydict list \<Rightarrow> (error + viz_data) option" where
  "main_viz_data data =
     (case process_data data of
        Inl e \<Rightarrow> Some (Inl e)
      | Inr items \<Rightarrow> map_option create_visualizations (those (map typed_item items)))"

section \<open>The callbacks: drill-down and export\<close>

text \<open>
  The two attributes set on the app object; each is a dict from company name to
  record, empty until the first click.
\<close>

record app =
  selected_category_exhibitors :: "string \<rightharpoonup> exhibitor"
  selected_pavilion_exhibitors :: "string \<rightharpoonup> exhibitor"

definition create_app :: app where
  "create_app = \<lparr> selected_category_exhibitors = Map.empty,
                   selected_pavilion_exhibitors = Map.empty \<rparr>"

text \<open>
  \<^verbatim>\<open>{exhibitor['company_name']: exhibitor for exhibitor in filtered_exhibitors}\<close>:
  a later record replaces an earlier one under the same name.
\<close>

definition by_company_name :: "exhibitor list \<Rightarrow> (string \<rightharpoonup> exhibitor)" where
  "by_company_name filtered_exhibitors =
     foldl (\<lambda>m exhibitor. m(company_name exhibitor \<mapsto> exhibitor)) Map.empty filtered_exhibitors"

text \<open>
  The click callbacks, without the HTML: the result is the list
  \<^verbatim>\<open>filtered_exhibitors\<close> that the table shows (\<open>None\<close> for the placeholder
  paragraph returned when there is no click data) and the app object after the call.
  The click data is reduced to the clicked bar's label. \<^verbatim>\<open>sorted\<close> is stable and
  compares strings by code point; the order on \<open>string\<close> is the lexicographic order
  on the character codes, which on UTF-8 bytes is the same order.
\<close>

definition display_category_click_data ::
  "viz_data \<Rightarrow> app \<Rightarrow> string option \<Rightarrow> exhibitor list option \<times> app" where
  "display_category_click_data viz a clickData =
     (case clickData of
        None \<Rightarrow> (None, a)
      | Some selected_category \<Rightarrow>
          (let filtered_exhibitors =
                 (if selected_category = ''Others''
                  then filter (no_top_category (top_30_category_names viz)) (df viz)
                  else filter (\<lambda>exhibitor. selected_category \<in> set (categories exhibitor))
                         (df viz));
               filtered_exhibitors = sort_key company_name filtered_exhibitors
           in (Some filtered_exhibitors,
               a\<lparr>selected_category_exhibitors := by_company_name filtered_exhibitors\<rparr>)))"

definition display_pavilion_click_data ::
  "viz_data \<Rightarrow> app \<Rightarrow> string option \<Rightarrow> exhibitor list option \<times> app" where
  "display_pavilion_click_data viz a clickData =
     (case clickData of
        None \<Rightarrow> (None, a)
      | Some selected_pavilion \<Rightarrow>
          (let filtered_exhibitors =
                 filter (\<lambda>exhibitor. pavilion exhibitor = selected_pavilion) (df viz);
               filtered_exhibitors = sort_key company_name filtered_exhibitors
           in (Some filtered_exhibitors,
               a\<lparr>selected_pavilion_exhibitors := by_company_name filtered_exhibitors\<rparr>)))"

text \<open>
  The frame handed to \<^verbatim>\<open>dcc.send_data_frame\<close>: its column labels and its rows.
  Writing the spreadsheet is the library's work and is not modelled.
\<close>

record export =
  columns :: "string list"
  data_rows :: "string list list"

text \<open>The labels of line 560, as UTF-8 bytes.\<close>

definition export_columns :: "string list" where
  "export_columns =
     [[CHR 0xED, CHR 0x9A, CHR 0x8C, CHR 0xEC, CHR 0x82, CHR 0xAC, CHR 0xEB, CHR 0xAA, CHR 0x85],
      [CHR 0xEB, CHR 0xB6, CHR 0x80, CHR 0xEC, CHR 0x8A, CHR 0xA4, CHR 0x20, CHR 0xEC, CHR 0x9C,
       CHR 0x84, CHR 0xEC, CHR 0xB9, CHR 0x98],
      [CHR 0xED, CHR 0x8C, CHR 0x8C, CHR 0xEB, CHR 0xB9, CHR 0x8C, CHR 0xEB, CHR 0xA6, CHR 0xAC,
       CHR 0xEC, CHR 0x98, CHR 0xA8],
      [CHR 0xEC, CHR 0x98, CHR 0x81, CHR 0xEB, CHR 0xAC, CHR 0xB8, CHR 0x20, CHR 0xEC, CHR 0x84,
       CHR 0xA4, CHR 0xEB, CHR 0xAA, CHR 0x85],
      [CHR 0xED, CHR 0x95, CHR 0x9C, CHR 0xEA, CHR 0xB8, CHR 0x80, CHR 0x20, CHR 0xEC, CHR 0x84,
       CHR 0xA4, CHR 0xEB, CHR 0xAA, CHR 0x85],
      [CHR 0xEC, CHR 0x9B, CHR 0xB9, CHR 0xED, CHR 0x8E, CHR 0x98, CHR 0xEC, CHR 0x9D, CHR 0xB4,
       CHR 0xEC, CHR 0xA7, CHR 0x80]]"

text \<open>
  \<^verbatim>\<open>df[['company_name', 'booth_location', 'pavilion', 'description',
       'description_ko', 'website']]\<close>
\<close>

definition export_row :: "exhibitor \<Rightarrow> string list" where
  "export_row exhibitor =
     [company_name exhibitor, booth_location exhibitor, pavilion exhibitor,
      description exhibitor, description_ko exhibitor, website exhibitor]"

text \<open>
  The loop over \<^verbatim>\<open>checkbox_values\<close>: the first value of every checklist that has
  one.
\<close>

fun selected_companies :: "string list list \<Rightarrow> string list" where
  "selected_companies [] = []"
| "selected_companies (values # rest) =
     (case values of
        [] \<Rightarrow> selected_companies rest
      | v # _ \<Rightarrow> v # selected_companies rest)"

text \<open>
  The body shared, line for line, by the two download callbacks; \<open>store\<close> is the
  attribute of the app object that the callback reads. \<^verbatim>\<open>n_clicks\<close> is \<^verbatim>\<open>None\<close> or
  a number.
\<close>

definition download_selected ::
  "(string \<rightharpoonup> exhibitor) \<Rightarrow> nat option \<Rightarrow> string list list \<Rightarrow> export option" where
  "download_selected store n_clicks checkbox_values =
     (if n_clicks = None \<or> n_clicks = Some 0 then None
      else let names = selected_companies checkbox_values
           in if names = [] then None
              else let selected_data = List.map_filter store names
                   in if selected_data = [] then None
                      else Some \<lparr> columns = export_columns,
                                  data_rows = map export_row selected_data \<rparr>)"

definition download_selected_category_data ::
  "app \<Rightarrow> nat option \<Rightarrow> string list list \<Rightarrow> export option" where
  "download_selected_category_data a n_clicks checkbox_values =
     download_selected (selected_category_exhibitors a) n_clicks checkbox_values"

definition download_selected_pavilion_data ::
  "app \<Rightarrow> nat option \<Rightarrow> string list list \<Rightarrow> export option" where
  "download_selected_pavilion_data a n_clicks checkbox_values =
     download_selected (selected_pavilion_exhibitors a) n_clicks checkbox_values"


definition toggle_language_pavilion :: "string \<Rightarrow> string" where
  "toggle_language_pavilion triggered_id =
     (if triggered_id = ''ko-button-pavilion'' then ''ko'' else ''en'')"

text \<open>
  \<^verbatim>\<open>description_field = 'description_ko' if current_language == 'ko' else 'description'\<close>,
  read from a record.
\<close>

definition description_field :: "string \<Rightarrow> exhibitor \<Rightarrow> string" where
  "description_field current_language exhibitor =
     (if current_language = ''ko'' then description_ko exhibitor else description exhibitor)"

section \<open>Sample data\<close>

text \<open>
  What \<^verbatim>\<open>process_data\<close> makes of a raw record that holds exactly the keys
  \<^verbatim>\<open>company_name\<close>, \<^verbatim>\<open>booth_location\<close>, \<^verbatim>\<open>pavilion\<close>, \<^verbatim>\<open>categories\<close> and
  \<^verbatim>\<open>description_ko\<close>, with strings and a list of strings as values.
\<close>

definition raw_record :: "string \<Rightarrow> string \<Rightarrow> string \<Rightarrow> string list \<Rightarrow> string \<Rightarrow> pydict" where
  "raw_record name booth pav cats desc_ko =
     [(''company_name'', JStr name), (''booth_location'', JStr booth),
      (''pavilion'', JStr pav), (''categories'', JArr (map JStr cats)),
      (''description_ko'', JStr desc_ko)]"

definition normalised :: "string \<Rightarrow> string \<Rightarrow> string \<Rightarrow> string list \<Rightarrow> string \<Rightarrow> exhibitor" where
  "normalised name booth pav cats desc_ko =
     \<lparr> company_name = name, booth_location = booth, pavilion = pav,
       categories_count = length cats,
       has_description = (if desc_ko = [] then 0 else 1),
       social_media_count = 0, description = [], description_ko = desc_ko,
       social_media = JArr [], contact_details = JArr [], website = [],
       categories = cats \<rparr>"

text \<open>
  Four exhibitors: two of them share the company name \<^verbatim>\<open>Zeta\<close> and a category,
  one has no category, and \<^verbatim>\<open>Zeta\<close> sorts before \<^verbatim>\<open>alpha\<close> by code point.
\<close>

definition sample_raw :: "pydict list" where
  "sample_raw =
     [raw_record ''alpha'' ''A1'' ''Korea'' [''Artificial Intelligence'', ''Cloud''] ''desc'',
      raw_record ''Zeta'' ''A2'' ''None'' [''Artificial Intelligence''] [],
      raw_record ''Zeta'' ''A3'' ''Korea'' [''Cloud'', ''Artificial Intelligence''] ''desc'',
      raw_record ''Beta'' ''A4'' ''None'' [] []]"

definition sample_records :: "exhibitor list" where
  "sample_records =
     [normalised ''alpha'' ''A1'' ''Korea'' [''Artificial Intelligence'', ''Cloud''] ''desc'',
      normalised ''Zeta'' ''A2'' ''None'' [''Artificial Intelligence''] [],
      normalised ''Zeta'' ''A3'' ''Korea'' [''Cloud'', ''Artificial Intelligence''] ''desc'',
      normalised ''Beta'' ''A4'' ''None'' [] []]"

text \<open>The name \<open>prefix\<close> followed by the \<open>i\<close>-th letter from \<^verbatim>\<open>A\<close> on.\<close>

definition numbered :: "string \<Rightarrow> nat \<Rightarrow> string" where
  "numbered prefix i = prefix @ [char_of (65 + i)]"

text \<open>
  Sixteen pavilions: fifteen with two exhibitors each and one, the last, with a
  single exhibitor.
\<close>

definition pavilion_sample :: "exhibitor list" where
  "pavilion_sample =
     concat (map (\<lambda>i. [normalised (numbered ''first'' i) ''A'' (numbered ''P'' i) [] [],
                        normalised (numbered ''second'' i) ''B'' (numbered ''P'' i) [] []])
               [0..<15])
     @ [normalised ''single'' ''C'' (numbered ''P'' 15) [] []]"

text \<open>
  Thirty-one categories: thirty carried by two exhibitors each, and one carried by a
  single exhibitor that has no other category.
\<close>

definition category_sample :: "exhibitor list" where
  "category_sample =
     [normalised ''Big'' ''A'' ''None'' (map (numbered ''C'') [0..<30]) [],
      normalised ''Large'' ''B'' ''None'' (map (numbered ''C'') [0..<30]) [],
      normalised ''Solo'' ''C'' ''None'' [numbered ''C'' 30] []]"

section \<open>Properties of the Normalizer\<close>

lemma process_data_length:
  "process_data data = Inr items \<Longrightarrow> length items = length data"
  by (induction data arbitrary: items) (auto split: sum.splits)

lemma process_data_nth:
  "process_data data = Inr items \<Longrightarrow> i < length data \<Longrightarrow>
   process_exhibitor (data ! i) = Inr (items ! i)"
proof (induction data arbitrary: items i)
  case Nil
  then show ?case by simp
next
  case (Cons x xs)
  then show ?case
    by (cases i) (auto split: sum.splits)
qed

lemma process_exhibitor_booth:
  assumes "process_exhibitor exhibitor = Inr it"
  shows "booth_location it = dict_get exhibitor ''booth_location'' (JStr ''Unknown'')"
  using assms by (auto simp: process_exhibitor_def split: sum.splits)

text \<open>A record none of whose list-valued keys is present is always normalised.\<close>

lemma process_exhibitor_returns:
  assumes "map_of exhibitor ''contact_details'' = None"
    and "map_of exhibitor ''categories'' = None"
    and "map_of exhibitor ''social_media'' = None"
  shows "\<exists>it. process_exhibitor exhibitor = Inr it"
  using assms by (simp add: process_exhibitor_def dict_get_def)

text \<open>
  C1. The claim: normalising a raw record never raises, whatever is missing or
  malformed, for instance a contact entry of type \<^verbatim>\<open>website\<close> without a \<^verbatim>\<open>url\<close> key.
  On exactly that record \<^verbatim>\<open>contact['url']\<close> raises \<^verbatim>\<open>KeyError: 'url'\<close>: the
  lookup of the type is defaulted with \<^verbatim>\<open>.get\<close>, the lookup of the url is not.
\<close>

theorem process_data_website_without_url:
  "process_data [[(''contact_details'', JArr [JObj [(''type'', JStr ''website'')]])]]
     = Inl (KeyError ''url'')"
  by (simp add: process_exhibitor_def dict_get_def lower_def lower_char_def)

text \<open>
  C10. For every raw record without the key \<^verbatim>\<open>booth_location\<close>, the normalised
  record has \<^verbatim>\<open>booth_location = 'Unknown'\<close>, the default of \<^verbatim>\<open>company_name\<close>.
\<close>

theorem booth_location_default:
  assumes "process_data data = Inr items"
    and "i < length data"
    and "map_of (data ! i) ''booth_location'' = None"
  shows "booth_location (items ! i) = JStr ''Unknown''"
proof -
  have "process_exhibitor (data ! i) = Inr (items ! i)"
    using assms(1,2) by (rule process_data_nth)
  then have "booth_location (items ! i)
      = dict_get (data ! i) ''booth_location'' (JStr ''Unknown'')"
    by (rule process_exhibitor_booth)
  then show ?thesis
    using assms(3) by (simp add: dict_get_def)
qed

text \<open>
  The statement of C10 on a raw record that holds a company name only.
\<close>

theorem booth_location_default_witness:
  "process_data [[(''company_name'', JStr ''Acme'')]]
     = Inr [\<lparr> company_name = JStr ''Acme'', booth_location = JStr ''Unknown'',
              pavilion = JStr ''None'', categories_count = 0, has_description = 0,
              social_media_count = 0, description = JStr [], description_ko = JStr [],
              social_media = JArr [], contact_details = JArr [], website = JStr [],
              categories = JArr [] \<rparr>]
   \<and> booth_location
        ([\<lparr> company_name = JStr ''Acme'', booth_location = JStr ''Unknown'',
              pavilion = JStr ''None'', categories_count = 0, has_description = 0,
              social_media_count = 0, description = JStr [], description_ko = JStr [],
              social_media = JArr [], contact_details = JArr [], website = JStr [],
              categories = JArr [] \<rparr>] ! 0) = JStr ''Unknown''"
proof -
  have run: "process_data [[(''company_name'', JStr ''Acme'')]]
     = Inr [\<lparr> company_name = JStr ''Acme'', booth_location = JStr ''Unknown'',
              pavilion = JStr ''None'', categories_count = 0, has_description = 0,
              social_media_count = 0, description = JStr [], description_ko = JStr [],
              social_media = JArr [], contact_details = JArr [], website = JStr [],
              categories = JArr [] \<rparr>]"
    by (simp add: process_exhibitor_def dict_get_def)
  have "booth_location
        ([\<lparr> company_name = JStr ''Acme'', booth_location = JStr ''Unknown'',
              pavilion = JStr ''None'', categories_count = 0, has_description = 0,
              social_media_count = 0, description = JStr [], description_ko = JStr [],
              social_media = JArr [], contact_details = JArr [], website = JStr [],
              categories = JArr [] \<rparr>] ! 0) = JStr ''Unknown''"
    by (rule booth_location_default [OF run]) simp_all
  with run show ?thesis by simp
qed

section \<open>Properties of the counting functions\<close>

lemma counter_add_keys:
  "map fst (counter_add acc x) = (if x \<in> set (map fst acc) then map fst acc else map fst acc @ [x])"
  by (induction acc x rule: counter_add.induct) auto

lemma counter_add_map_of:
  "map_of (counter_add acc x) k =
     (if k = x then Some (case map_of acc x of None \<Rightarrow> 1 | Some n \<Rightarrow> n + 1) else map_of acc k)"
  by (induction acc x rule: counter_add.induct) auto

lemma foldl_counter_add_distinct:
  "distinct (map fst acc) \<Longrightarrow> distinct (map fst (foldl counter_add acc xs))"
  by (induction xs arbitrary: acc) (auto simp: counter_add_keys)

lemma counter_add_key_set:
  "fst ` set (counter_add acc x) = insert x (fst ` set acc)"
proof -
  have "set (map fst (counter_add acc x)) = insert x (set (map fst acc))"
    unfolding counter_add_keys by auto
  then show ?thesis by simp
qed

lemma foldl_counter_add_keys:
  "fst ` set (foldl counter_add acc xs) = fst ` set acc \<union> set xs"
  by (induction xs arbitrary: acc) (simp_all add: counter_add_key_set)

lemma foldl_counter_add_map_of:
  "map_of (foldl counter_add acc xs) k =
     (if k \<in> set xs
      then Some (count_list xs k + (case map_of acc k of None \<Rightarrow> 0 | Some n \<Rightarrow> n))
      else map_of acc k)"
proof (induction xs arbitrary: acc)
  case Nil
  then show ?case by simp
next
  case (Cons x xs)
  show ?case
    by (simp add: Cons.IH counter_add_map_of split: option.splits)
qed

lemma Counter_distinct: "distinct (map fst (Counter xs))"
  by (simp add: Counter_def foldl_counter_add_distinct)

lemma Counter_keys: "fst ` set (Counter xs) = set xs"
  using foldl_counter_add_keys [of "[]" xs] by (simp add: Counter_def)

lemma Counter_map_of:
  "map_of (Counter xs) k = (if k \<in> set xs then Some (count_list xs k) else None)"
  by (simp add: Counter_def foldl_counter_add_map_of)

lemma Counter_row:
  "(k, n) \<in> set (Counter xs) \<longleftrightarrow> k \<in> set xs \<and> n = count_list xs k"
  using map_of_eq_Some_iff [OF Counter_distinct, of xs k n]
  by (auto simp: Counter_map_of split: if_splits)

lemma counter_add_filter:
  "filter (\<lambda>row. P (fst row)) (counter_add acc x) =
     (if P x then counter_add (filter (\<lambda>row. P (fst row)) acc) x
      else filter (\<lambda>row. P (fst row)) acc)"
  by (induction acc x rule: counter_add.induct) auto

lemma foldl_counter_add_filter:
  "filter (\<lambda>row. P (fst row)) (foldl counter_add acc xs) =
     foldl counter_add (filter (\<lambda>row. P (fst row)) acc) (filter P xs)"
  by (induction xs arbitrary: acc) (simp_all add: counter_add_filter)

lemma Counter_filter:
  "filter (\<lambda>row. P (fst row)) (Counter xs) = Counter (filter P xs)"
  using foldl_counter_add_filter [of P "[]" xs] by (simp add: Counter_def)

lemma by_count_desc_set: "set (by_count_desc rows) = set rows"
  by (simp add: by_count_desc_def)

lemma by_count_desc_mset: "mset (by_count_desc rows) = mset rows"
  by (simp add: by_count_desc_def)

lemma by_count_desc_distinct: "distinct (map fst (by_count_desc rows)) = distinct (map fst rows)"
proof -
  have "mset (map fst (by_count_desc rows)) = mset (map fst rows)"
    by (simp add: by_count_desc_mset)
  then show ?thesis by (rule mset_eq_imp_distinct_iff)
qed

lemma by_count_desc_sorted: "sorted (map (\<lambda>row. - int (snd row)) (by_count_desc rows))"
  by (simp add: by_count_desc_def)

lemma by_count_desc_filter:
  "filter P (by_count_desc rows) = by_count_desc (filter P rows)"
  by (simp add: by_count_desc_def filter_sort)

lemma by_count_desc_idem: "by_count_desc (by_count_desc rows) = by_count_desc rows"
  unfolding by_count_desc_def by (rule sort_key_id_if_sorted) simp

lemma sorted_take_drop_le:
  assumes "sorted (map f xs)" and "y \<in> set (take n xs)" and "x \<in> set (drop n xs)"
  shows "f y \<le> f x"
proof -
  have "sorted (map f (take n xs) @ map f (drop n xs))"
    using assms(1) by (simp flip: map_append)
  then show ?thesis
    using assms(2,3) by (auto simp: sorted_append)
qed


lemma by_count_desc_sorted_wrt:
  "sorted_wrt (\<lambda>r s. snd s \<le> snd r) (by_count_desc rows)"
proof -
  have "sorted_wrt (\<lambda>r s. - int (snd r) \<le> - int (snd s)) (by_count_desc rows)"
    using by_count_desc_sorted [of rows] by (simp add: sorted_map)
  then show ?thesis
    by (rule sorted_wrt_mono_rel [rotated]) simp
qed

lemma most_common_length: "length (most_common n counts) \<le> n"
  by (simp add: most_common_def)

lemma most_common_subset: "set (most_common n counts) \<subseteq> set counts"
  using set_take_subset [of n "by_count_desc counts"]
  by (simp add: most_common_def by_count_desc_set)

lemma most_common_distinct:
  "distinct (map fst counts) \<Longrightarrow> distinct (map fst (most_common n counts))"
  by (simp add: most_common_def take_map [symmetric] by_count_desc_distinct)

lemma most_common_sorted_wrt:
  "sorted_wrt (\<lambda>r s. snd s \<le> snd r) (most_common n counts)"
  unfolding most_common_def by (rule sorted_wrt_take) (rule by_count_desc_sorted_wrt)

lemma most_common_left_out:
  assumes "row \<in> set counts" and "row \<notin> set (most_common n counts)"
  shows "length (most_common n counts) = n \<and> (\<forall>r \<in> set (most_common n counts). snd row \<le> snd r)"
proof -
  let ?S = "by_count_desc counts"
  have "set ?S = set (take n ?S) \<union> set (drop n ?S)"
    using set_append [of "take n ?S" "drop n ?S"] by (simp only: append_take_drop_id)
  then have in_drop: "row \<in> set (drop n ?S)"
    using assms by (auto simp: most_common_def by_count_desc_set)
  then have "n < length ?S"
    by (cases "n < length ?S") auto
  then have len: "length (most_common n counts) = n"
    by (simp add: most_common_def)
  have "snd row \<le> snd r" if "r \<in> set (most_common n counts)" for r
  proof -
    have "- int (snd r) \<le> - int (snd row)"
      using by_count_desc_sorted [of counts] that in_drop
      unfolding most_common_def by (rule sorted_take_drop_le)
    then show ?thesis by simp
  qed
  with len show ?thesis by blast
qed

lemma count_list_filter:
  "count_list (filter P xs) x = (if P x then count_list xs x else 0)"
  by (induction xs) auto

lemma count_list_map_filter:
  "count_list (map f xs) y = length (filter (\<lambda>x. f x = y) xs)"
  by (induction xs) auto

lemma pavilion_frame_most_common:
  "pavilion_frame records =
     most_common 15 (Counter (filter (\<lambda>p. p \<noteq> ''None'') (map pavilion records)))"
  by (simp add: pavilion_frame_def value_counts_def most_common_def by_count_desc_filter
      by_count_desc_idem Counter_filter [of "\<lambda>p. p \<noteq> ''None''"])

lemma create_visualizations_Inr:
  assumes "create_visualizations records = Inr viz"
  shows "records \<noteq> []" and "df viz = records"
    and "top_categories viz = top_categories_frame records"
    and "top_30_category_names viz = fst ` set (top_30_categories records)"
    and "pavilion_counts viz = pavilion_frame records"
    and "description_counts viz = description_frame records"
    and "social_media_dist viz = social_media_frame records"
    and "others_real_count viz = 507"
proof -
  show ne: "records \<noteq> []"
    using assms by (auto simp: create_visualizations_def)
  have v: "viz = \<lparr> df = records,
                 top_categories = top_categories_frame records,
                 top_30_category_names = set (map fst (top_30_categories records)),
                 pavilion_counts = pavilion_frame records,
                 description_counts = description_frame records,
                 social_media_dist = social_media_frame records,
                 others_real_count = 507 \<rparr>"
    using assms ne by (simp add: create_visualizations_def)
  show "df viz = records"
    and "top_categories viz = top_categories_frame records"
    and "top_30_category_names viz = fst ` set (top_30_categories records)"
    and "pavilion_counts viz = pavilion_frame records"
    and "description_counts viz = description_frame records"
    and "social_media_dist viz = social_media_frame records"
    and "others_real_count viz = 507"
    unfolding v by simp_all
qed

section \<open>Properties of the Aggregator\<close>

text \<open>
  C6. The pavilion table has one row per pavilion, in descending order of count, none
  for the sentinel \<^verbatim>\<open>None\<close>, each with the number of records whose pavilion is exactly
  that string. It has 15 rows, or as many as there are pavilions other than \<^verbatim>\<open>None\<close>
  when these are fewer, so \<^verbatim>\<open>None\<close> never takes one of the 15 places; and a pavilion
  that is left out is no more frequent than any row of the table.
\<close>

theorem pavilion_table_top_15:
  assumes "create_visualizations records = Inr viz"
  shows "length (pavilion_counts viz) = min 15 (card (pavilion ` set records - {''None''}))
       \<and> distinct (map fst (pavilion_counts viz))
       \<and> sorted_wrt (\<lambda>r s. snd s \<le> snd r) (pavilion_counts viz)
       \<and> (\<forall>row \<in> set (pavilion_counts viz).
            fst row \<noteq> ''None'' \<and> 0 < snd row \<and>
            snd row = length (filter (\<lambda>e. pavilion e = fst row) records))
       \<and> (\<forall>e \<in> set records.
            pavilion e \<noteq> ''None'' \<longrightarrow> pavilion e \<notin> fst ` set (pavilion_counts viz) \<longrightarrow>
            length (pavilion_counts viz) = 15 \<and>
            (\<forall>row \<in> set (pavilion_counts viz).
               length (filter (\<lambda>x. pavilion x = pavilion e) records) \<le> snd row))"
proof -
  let ?ps = "filter (\<lambda>p. p \<noteq> ''None'') (map pavilion records)"
  let ?T = "most_common 15 (Counter ?ps)"
  have eq: "pavilion_counts viz = ?T"
    using create_visualizations_Inr(5) [OF assms] by (simp add: pavilion_frame_most_common)
  have cnt: "count_list ?ps p = length (filter (\<lambda>e. pavilion e = p) records)"
    if "p \<noteq> ''None''" for p
    using that by (simp add: count_list_filter count_list_map_filter)
  have "length (Counter ?ps) = card (set (map fst (Counter ?ps)))"
    using distinct_card [OF Counter_distinct, of ?ps] by simp
  also have "\<dots> = card (set ?ps)"
    by (simp only: set_map Counter_keys)
  also have "set ?ps = pavilion ` set records - {''None''}"
    by auto
  finally have len: "length ?T = min 15 (card (pavilion ` set records - {''None''}))"
    by (simp add: most_common_def by_count_desc_def min.commute)
  have dist: "distinct (map fst ?T)"
    by (rule most_common_distinct) (rule Counter_distinct)
  have sorted: "sorted_wrt (\<lambda>r s. snd s \<le> snd r) ?T"
    by (rule most_common_sorted_wrt)
  have rows: "fst row \<noteq> ''None'' \<and> 0 < snd row \<and>
      snd row = length (filter (\<lambda>e. pavilion e = fst row) records)"
    if "row \<in> set ?T" for row
  proof -
    have "row \<in> set (Counter ?ps)"
      using that most_common_subset [of 15 "Counter ?ps"] by auto
    then have "fst row \<in> set ?ps \<and> snd row = count_list ?ps (fst row)"
      using Counter_row [of "fst row" "snd row" ?ps] by simp
    then have mem: "fst row \<in> set ?ps" and c: "snd row = count_list ?ps (fst row)"
      by blast+
    from mem have ne: "fst row \<noteq> ''None''" by simp
    from mem have "count_list ?ps (fst row) \<noteq> 0"
      by (simp only: count_list_0_iff not_not)
    with c ne cnt [OF ne] show ?thesis by simp
  qed
  have left_out: "length ?T = 15 \<and>
      (\<forall>row \<in> set ?T. length (filter (\<lambda>x. pavilion x = pavilion e) records) \<le> snd row)"
    if e: "e \<in> set records" and ne: "pavilion e \<noteq> ''None''"
      and out: "pavilion e \<notin> fst ` set ?T" for e
  proof -
    let ?row = "(pavilion e, count_list ?ps (pavilion e))"
    have "pavilion e \<in> set ?ps"
      using e ne by simp
    then have "?row \<in> set (Counter ?ps)"
      by (simp add: Counter_row)
    moreover have "?row \<notin> set ?T"
      using out by force
    ultimately have "length ?T = 15 \<and> (\<forall>r \<in> set ?T. snd ?row \<le> snd r)"
      by (rule most_common_left_out)
    then show ?thesis
      by (simp add: cnt [OF ne])
  qed
  show ?thesis
    unfolding eq using len dist sorted rows left_out by blast
qed

lemma top_30_categories_distinct: "distinct (map fst (top_30_categories records))"
  unfolding top_30_categories_def by (rule most_common_distinct) (rule Counter_distinct)

lemma top_30_categories_row:
  assumes "(c, n) \<in> set (top_30_categories records)"
  shows "n = count_list (concat (map categories records)) c"
proof -
  have "(c, n) \<in> set (Counter (concat (map categories records)))"
    using assms most_common_subset unfolding top_30_categories_def by blast
  then show ?thesis
    by (simp only: Counter_row)
qed

lemma top_30_categories_map_of:
  "map_of (top_30_categories records) c = Some n \<longleftrightarrow> (c, n) \<in> set (top_30_categories records)"
  by (rule map_of_eq_Some_iff) (rule top_30_categories_distinct)

lemma top_categories_frame_names:
  "map fst (top_categories_frame records) = map fst (top_30_categories records) @ [''Others'']"
  by (simp add: top_categories_frame_def Let_def comp_def split: option.splits)

lemma top_categories_frame_last:
  "last (top_categories_frame records) =
     (''Others'', case map_of (top_30_categories records) ''Artificial Intelligence'' of
                    None \<Rightarrow> real_others_count records
                  | Some ai_count \<Rightarrow> ai_count)"
  by (simp add: top_categories_frame_def Let_def last_map split: option.splits)

text \<open>
  C2, as the code has it. On an empty input array the Normalizer returns the empty
  sequence, and the Aggregator then raises \<^verbatim>\<open>KeyError: 'categories'\<close>: no table is
  produced. On every non-empty normalised sequence the Aggregator returns its tables.
\<close>

theorem empty_input_raises:
  "process_data [] = Inr []
   \<and> create_visualizations [] = Inl (KeyError ''categories'')
   \<and> (records \<noteq> [] \<longrightarrow> (\<exists>viz. create_visualizations records = Inr viz))"
  by (simp add: create_visualizations_def)

text \<open>
  C2 as stated (the pipeline on an empty array does not fail and yields four empty
  tables) is false: the pipeline on the empty array ends in the \<^verbatim>\<open>KeyError\<close>.
\<close>

theorem empty_input_counterexample:
  "main_viz_data [] = Some (Inl (KeyError ''categories''))"
  by (simp add: main_viz_data_def create_visualizations_def)

text \<open>
  C3, as the code has it. The category table is the top 30 rows followed by the row
  \<^verbatim>\<open>Others\<close>. Whenever \<^verbatim>\<open>Artificial Intelligence\<close> is among the top 30, the count
  shown for \<^verbatim>\<open>Others\<close> is the count of \<^verbatim>\<open>Artificial Intelligence\<close>; otherwise it is
  the number of exhibitors without a top-30 category. The value returned as
  \<^verbatim>\<open>others_real_count\<close> is the constant 507, whatever the data.
\<close>

theorem others_displayed_count:
  assumes "create_visualizations records = Inr viz"
  shows "map fst (top_categories viz) = map fst (top_30_categories records) @ [''Others'']
       \<and> (\<forall>ai_count. (''Artificial Intelligence'', ai_count) \<in> set (top_30_categories records) \<longrightarrow>
            last (top_categories viz) = (''Others'', ai_count) \<and>
            ai_count = count_list (concat (map categories records)) ''Artificial Intelligence'')
       \<and> (''Artificial Intelligence'' \<notin> fst ` set (top_30_categories records) \<longrightarrow>
            last (top_categories viz) = (''Others'', real_others_count records))
       \<and> others_real_count viz = 507"
proof -
  note v = create_visualizations_Inr [OF assms]
  have ai: "last (top_categories viz) = (''Others'', ai_count) \<and>
            ai_count = count_list (concat (map categories records)) ''Artificial Intelligence''"
    if "(''Artificial Intelligence'', ai_count) \<in> set (top_30_categories records)" for ai_count
    using that top_30_categories_row [OF that]
    by (simp add: v(3) top_categories_frame_last top_30_categories_map_of [symmetric])
  have no_ai: "last (top_categories viz) = (''Others'', real_others_count records)"
    if "''Artificial Intelligence'' \<notin> fst ` set (top_30_categories records)"
  proof -
    have "map_of (top_30_categories records) ''Artificial Intelligence'' = None"
      using that by (simp add: map_of_eq_None_iff)
    then show ?thesis
      by (simp add: v(3) top_categories_frame_last)
  qed
  show ?thesis
    using ai no_ai v(8) by (simp add: v(3) top_categories_frame_names)
qed

lemma display_category_Others:
  "display_category_click_data viz a (Some ''Others'') =
     (Some (sort_key company_name (filter (no_top_category (top_30_category_names viz)) (df viz))),
      a\<lparr>selected_category_exhibitors :=
           by_company_name
             (sort_key company_name (filter (no_top_category (top_30_category_names viz)) (df viz)))\<rparr>)"
  by (simp add: display_category_click_data_def Let_def)

lemma display_category_other:
  "selected_category \<noteq> ''Others'' \<Longrightarrow>
   display_category_click_data viz a (Some selected_category) =
     (Some (sort_key company_name
              (filter (\<lambda>exhibitor. selected_category \<in> set (categories exhibitor)) (df viz))),
      a\<lparr>selected_category_exhibitors :=
           by_company_name
             (sort_key company_name
                (filter (\<lambda>exhibitor. selected_category \<in> set (categories exhibitor)) (df viz)))\<rparr>)"
  by (simp add: display_category_click_data_def Let_def)

text \<open>
  C4, as the code has it. A click on \<^verbatim>\<open>Others\<close> shows exactly the records whose
  categories meet none of the top-30 names, each as often as it occurs in the data,
  sorted by company name. Their number is the number of such exhibitors in the data;
  it is the count the category table shows for \<^verbatim>\<open>Others\<close> when
  \<^verbatim>\<open>Artificial Intelligence\<close> is not among the top 30. The real count that the
  Aggregator returns is the constant 507, so the number of shown records equals it
  exactly when it is 507.
\<close>

theorem others_drill_down:
  assumes "create_visualizations records = Inr viz"
  shows "\<exists>shown. fst (display_category_click_data viz a (Some ''Others'')) = Some shown
       \<and> mset shown =
           filter_mset (\<lambda>e. set (categories e) \<inter> fst ` set (top_30_categories records) = {})
             (mset records)
       \<and> length shown =
           length (filter (\<lambda>e. set (categories e) \<inter> fst ` set (top_30_categories records) = {})
                     records)
       \<and> sorted (map company_name shown)
       \<and> (''Artificial Intelligence'' \<notin> fst ` set (top_30_categories records) \<longrightarrow>
            last (top_categories viz) = (''Others'', length shown))
       \<and> others_real_count viz = 507
       \<and> ((length shown = others_real_count viz) = (length shown = 507))"
proof -
  note v = create_visualizations_Inr [OF assms]
  let ?P = "\<lambda>e. set (categories e) \<inter> fst ` set (top_30_categories records) = {}"
  let ?shown = "sort_key company_name (filter ?P records)"
  have same: "no_top_category (fst ` set (top_30_categories records)) = ?P"
    by (simp add: no_top_category_def [abs_def])
  have click: "fst (display_category_click_data viz a (Some ''Others'')) = Some ?shown"
    by (simp add: display_category_Others v(2,4) same)
  have bag: "mset ?shown = filter_mset ?P (mset records)"
    by simp
  have len: "length ?shown = length (filter ?P records)"
    by simp
  have ord: "sorted (map company_name ?shown)"
    by simp
  have shown_count: "last (top_categories viz) = (''Others'', length ?shown)"
    if "''Artificial Intelligence'' \<notin> fst ` set (top_30_categories records)"
  proof -
    have "map_of (top_30_categories records) ''Artificial Intelligence'' = None"
      using that by (simp add: map_of_eq_None_iff)
    then have "last (top_categories viz) = (''Others'', real_others_count records)"
      by (simp add: v(3) top_categories_frame_last)
    then show ?thesis
      by (simp add: real_others_count_def same)
  qed
  have fixed: "others_real_count viz = 507"
    by (rule v(8))
  show ?thesis
    using click bag len ord shown_count fixed by (intro exI [of _ ?shown]) simp
qed

text \<open>
  C5. A click on a category other than \<^verbatim>\<open>Others\<close> shows exactly the records whose
  category list contains the clicked name, each as often as it occurs in the data, in
  ascending order of company name, strings compared character by character by code.
\<close>

theorem category_drill_down:
  assumes "selected_category \<noteq> ''Others''"
  shows "\<exists>shown. fst (display_category_click_data viz a (Some selected_category)) = Some shown
       \<and> mset shown = filter_mset (\<lambda>e. selected_category \<in> set (categories e)) (mset (df viz))
       \<and> sorted (map company_name shown)"
proof -
  let ?shown = "sort_key company_name
      (filter (\<lambda>e. selected_category \<in> set (categories e)) (df viz))"
  have "fst (display_category_click_data viz a (Some selected_category)) = Some ?shown"
    using assms by (simp add: display_category_other)
  moreover have "mset ?shown =
      filter_mset (\<lambda>e. selected_category \<in> set (categories e)) (mset (df viz))"
    by simp
  moreover have "sorted (map company_name ?shown)"
    by simp
  ultimately show ?thesis by blast
qed

section \<open>Properties of the callbacks\<close>

lemma foldl_upd_lookup:
  "foldl (\<lambda>m e. m(company_name e \<mapsto> e)) m0 es name =
     (case filter (\<lambda>e. company_name e = name) es of
        [] \<Rightarrow> m0 name
      | e # fs \<Rightarrow> Some (last (e # fs)))"
  by (induction es arbitrary: m0) (auto split: list.splits)

lemma by_company_name_lookup:
  "by_company_name es name =
     (case filter (\<lambda>e. company_name e = name) es of
        [] \<Rightarrow> None
      | e # fs \<Rightarrow> Some (last (e # fs)))"
  by (simp add: by_company_name_def foldl_upd_lookup)

lemma by_company_name_Some:
  assumes "by_company_name es name = Some e"
  shows "company_name e = name" and "e \<in> set es"
    and "e = last (filter (\<lambda>e. company_name e = name) es)"
proof -
  let ?fs = "filter (\<lambda>e. company_name e = name) es"
  from assms have ne: "?fs \<noteq> []" and e: "e = last ?fs"
    by (auto simp: by_company_name_lookup split: list.splits)
  then have "e \<in> set ?fs"
    using last_in_set by blast
  then show "company_name e = name" and "e \<in> set es"
    by simp_all
  show "e = last ?fs" by (rule e)
qed

lemma by_company_name_dom:
  "(by_company_name es name \<noteq> None) = (name \<in> company_name ` set es)"
proof -
  have "(filter (\<lambda>e. company_name e = name) es \<noteq> []) = (name \<in> company_name ` set es)"
    by (auto simp: filter_empty_conv)
  then show ?thesis
    by (cases "filter (\<lambda>e. company_name e = name) es") (simp_all add: by_company_name_lookup)
qed





lemma map_filter_present:
  "(\<forall>name \<in> set names. store name \<noteq> None) \<Longrightarrow>
   List.map_filter store names = map (\<lambda>name. the (store name)) names"
  by (induction names) auto

lemma download_selected_rows:
  assumes "0 < n" and "selected_companies checkbox_values \<noteq> []"
    and "\<forall>name \<in> set (selected_companies checkbox_values). store name \<noteq> None"
  shows "download_selected store (Some n) checkbox_values =
           Some \<lparr> columns = export_columns,
                  data_rows = map (\<lambda>name. export_row (the (store name)))
                                (selected_companies checkbox_values) \<rparr>"
  using assms by (simp add: download_selected_def Let_def map_filter_present)

lemma map_filter_names:
  assumes "\<And>k e. store k = Some e \<Longrightarrow> company_name e = k"
  shows "map company_name (List.map_filter store names) = filter (\<lambda>k. store k \<noteq> None) names"
  using assms by (induction names) (auto split: option.splits)

lemma map_filter_values:
  "e \<in> set (List.map_filter store names) \<Longrightarrow> \<exists>k \<in> set names. store k = Some e"
  by (auto simp: List.map_filter_def)

lemma download_selected_Some:
  assumes "download_selected store n_clicks checkbox_values = Some ex"
  shows "columns ex = export_columns"
    and "data_rows ex = map export_row (List.map_filter store (selected_companies checkbox_values))"
  using assms by (auto simp: download_selected_def Let_def split: if_splits)

lemma hd_export_row: "hd (export_row e) = company_name e"
  by (simp add: export_row_def)

lemma length_export_row: "length (export_row e) = 6"
  by (simp add: export_row_def)



lemma display_category_Some:
  assumes "display_category_click_data viz a (Some key) = (Some shown, a')"
  shows "selected_category_exhibitors a' = by_company_name shown"
    and "selected_pavilion_exhibitors a' = selected_pavilion_exhibitors a"
  using assms by (auto simp: display_category_click_data_def Let_def)

lemma display_pavilion_Some:
  assumes "display_pavilion_click_data viz a (Some key) = (Some shown, a')"
  shows "selected_pavilion_exhibitors a' = by_company_name shown"
    and "selected_category_exhibitors a' = selected_category_exhibitors a"
  using assms by (auto simp: display_pavilion_click_data_def Let_def)

lemma export_after_drill_down:
  assumes "0 < n" and "selected_companies cv \<noteq> []"
    and "set (selected_companies cv) \<subseteq> company_name ` set shown"
  shows "\<exists>ex. download_selected (by_company_name shown) (Some n) cv = Some ex
           \<and> columns ex = export_columns
           \<and> length (data_rows ex) = length (selected_companies cv)
           \<and> map hd (data_rows ex) = selected_companies cv
           \<and> (\<forall>row \<in> set (data_rows ex). length row = 6 \<and> (\<exists>e \<in> set shown. row = export_row e))"
proof -
  let ?store = "by_company_name shown"
  let ?names = "selected_companies cv"
  let ?ex = "\<lparr> columns = export_columns,
               data_rows = map (\<lambda>name. export_row (the (?store name))) ?names \<rparr>"
  have present: "\<forall>name \<in> set ?names. ?store name \<noteq> None"
  proof
    fix name
    assume "name \<in> set ?names"
    then have "name \<in> company_name ` set shown"
      using assms(3) by blast
    then show "?store name \<noteq> None"
      by (simp only: by_company_name_dom)
  qed
  have ex: "download_selected ?store (Some n) cv = Some ?ex"
    using assms(1,2) present by (rule download_selected_rows)
  have stored: "company_name (the (?store name)) = name \<and> the (?store name) \<in> set shown"
    if mem: "name \<in> set ?names" for name
  proof -
    obtain e where "?store name = Some e"
      using present mem by auto
    then show ?thesis
      using by_company_name_Some(1,2) [of shown name e] by simp
  qed
  have "map hd (data_rows ?ex) = map (\<lambda>name. company_name (the (?store name))) ?names"
    by (simp add: hd_export_row comp_def)
  also have "\<dots> = map (\<lambda>name. name) ?names"
    by (rule map_cong) (simp_all add: stored)
  finally have order: "map hd (data_rows ?ex) = ?names"
    by simp
  have rows: "\<forall>row \<in> set (data_rows ?ex). length row = 6 \<and> (\<exists>e \<in> set shown. row = export_row e)"
    using stored by (auto simp: length_export_row)
  show ?thesis
    using ex order rows by (intro exI [of _ ?ex]) simp
qed

lemma length_filter_eq_filter:
  "length (filter (\<lambda>k. k = name) (filter P names)) =
     (if P name then length (filter (\<lambda>k. k = name) names) else 0)"
  by (induction names) auto

lemma export_rows_for_name:
  assumes "download_selected (by_company_name shown) n_clicks cv = Some ex"
  shows "\<forall>row \<in> set (data_rows ex). hd row = name \<longrightarrow>
           row = export_row (last (filter (\<lambda>e. company_name e = name) shown))"
    and "length (filter (\<lambda>row. hd row = name) (data_rows ex)) =
           (if name \<in> company_name ` set shown then count_list (selected_companies cv) name else 0)"
proof -
  let ?store = "by_company_name shown"
  let ?names = "selected_companies cv"
  let ?es = "List.map_filter ?store ?names"
  have rows: "data_rows ex = map export_row ?es"
    using assms by (rule download_selected_Some)
  have key: "company_name e = k" if "?store k = Some e" for k e
    using that by (rule by_company_name_Some)
  show "\<forall>row \<in> set (data_rows ex). hd row = name \<longrightarrow>
           row = export_row (last (filter (\<lambda>e. company_name e = name) shown))"
  proof (intro ballI impI)
    fix row
    assume "row \<in> set (data_rows ex)" and hd: "hd row = name"
    then obtain e where e: "e \<in> set ?es" and row: "row = export_row e"
      by (auto simp: rows)
    from e obtain k where k: "?store k = Some e"
      using map_filter_values by fastforce
    have "k = name"
      using key [OF k] hd row by (simp add: hd_export_row)
    with k have "e = last (filter (\<lambda>e. company_name e = name) shown)"
      using by_company_name_Some(3) by blast
    with row show "row = export_row (last (filter (\<lambda>e. company_name e = name) shown))"
      by simp
  qed
  have "filter (\<lambda>row. hd row = name) (data_rows ex) =
          map export_row (filter (\<lambda>e. company_name e = name) ?es)"
    by (simp add: rows filter_map comp_def hd_export_row)
  then have "length (filter (\<lambda>row. hd row = name) (data_rows ex)) =
          length (filter (\<lambda>k. k = name) (map company_name ?es))"
    by (simp add: filter_map comp_def)
  also have "\<dots> = length (filter (\<lambda>k. k = name) (filter (\<lambda>k. ?store k \<noteq> None) ?names))"
    using key by (simp only: map_filter_names)
  also have "\<dots> = (if ?store name \<noteq> None then length (filter (\<lambda>k. k = name) ?names) else 0)"
    by (rule length_filter_eq_filter)
  also have "\<dots> = (if name \<in> company_name ` set shown then count_list ?names name else 0)"
  proof -
    have "filter (\<lambda>k. k = name) ?names = filter ((=) name) ?names"
      by (rule filter_cong) auto
    then show ?thesis
      by (simp only: by_company_name_dom count_list_eq_length_filter)
  qed
  finally show "length (filter (\<lambda>row. hd row = name) (data_rows ex)) =
           (if name \<in> company_name ` set shown then count_list (selected_companies cv) name else 0)" .
qed





text \<open>
  C9, as the code has it. After a click the slot maps a company name to the last
  record of that name in the sorted result, and to nothing else. In a later export
  every row for that name is this one record, and there is one such row for each time
  the name occurs among the checked values.
\<close>

theorem last_selection_keeps_one_record:
  "(display_category_click_data viz a (Some key) = (Some shown, a') \<longrightarrow>
      selected_category_exhibitors a' name =
        (case filter (\<lambda>e. company_name e = name) shown of
           [] \<Rightarrow> None
         | e # es \<Rightarrow> Some (last (e # es)))
      \<and> (\<forall>ex. download_selected_category_data a' n_clicks checkbox_values = Some ex \<longrightarrow>
            (\<forall>row \<in> set (data_rows ex). hd row = name \<longrightarrow>
               row = export_row (last (filter (\<lambda>e. company_name e = name) shown)))
            \<and> length (filter (\<lambda>row. hd row = name) (data_rows ex)) =
                (if name \<in> company_name ` set shown
                 then count_list (selected_companies checkbox_values) name else 0)))
   \<and> (display_pavilion_click_data viz a (Some key) = (Some shown, a') \<longrightarrow>
      selected_pavilion_exhibitors a' name =
        (case filter (\<lambda>e. company_name e = name) shown of
           [] \<Rightarrow> None
         | e # es \<Rightarrow> Some (last (e # es)))
      \<and> (\<forall>ex. download_selected_pavilion_data a' n_clicks checkbox_values = Some ex \<longrightarrow>
            (\<forall>row \<in> set (data_rows ex). hd row = name \<longrightarrow>
               row = export_row (last (filter (\<lambda>e. company_name e = name) shown)))
            \<and> length (filter (\<lambda>row. hd row = name) (data_rows ex)) =
                (if name \<in> company_name ` set shown
                 then count_list (selected_companies checkbox_values) name else 0)))"
proof (intro conjI impI allI)
  assume h: "display_category_click_data viz a (Some key) = (Some shown, a')"
  then have store: "selected_category_exhibitors a' = by_company_name shown"
    by (rule display_category_Some)
  show "selected_category_exhibitors a' name =
        (case filter (\<lambda>e. company_name e = name) shown of
           [] \<Rightarrow> None
         | e # es \<Rightarrow> Some (last (e # es)))"
    unfolding store by (rule by_company_name_lookup)
  fix ex
  assume "download_selected_category_data a' n_clicks checkbox_values = Some ex"
  then have ex: "download_selected (by_company_name shown) n_clicks checkbox_values = Some ex"
    by (simp add: download_selected_category_data_def store)
  show "\<forall>row \<in> set (data_rows ex). hd row = name \<longrightarrow>
               row = export_row (last (filter (\<lambda>e. company_name e = name) shown))"
    using ex by (rule export_rows_for_name)
  show "length (filter (\<lambda>row. hd row = name) (data_rows ex)) =
                (if name \<in> company_name ` set shown
                 then count_list (selected_companies checkbox_values) name else 0)"
    using ex by (rule export_rows_for_name)
next
  assume h: "display_pavilion_click_data viz a (Some key) = (Some shown, a')"
  then have store: "selected_pavilion_exhibitors a' = by_company_name shown"
    by (rule display_pavilion_Some)
  show "selected_pavilion_exhibitors a' name =
        (case filter (\<lambda>e. company_name e = name) shown of
           [] \<Rightarrow> None
         | e # es \<Rightarrow> Some (last (e # es)))"
    unfolding store by (rule by_company_name_lookup)
  fix ex
  assume "download_selected_pavilion_data a' n_clicks checkbox_values = Some ex"
  then have ex: "download_selected (by_company_name shown) n_clicks checkbox_values = Some ex"
    by (simp add: download_selected_pavilion_data_def store)
  show "\<forall>row \<in> set (data_rows ex). hd row = name \<longrightarrow>
               row = export_row (last (filter (\<lambda>e. company_name e = name) shown))"
    using ex by (rule export_rows_for_name)
  show "length (filter (\<lambda>row. hd row = name) (data_rows ex)) =
                (if name \<in> company_name ` set shown
                 then count_list (selected_companies checkbox_values) name else 0)"
    using ex by (rule export_rows_for_name)
qed

text \<open>
  C9 as stated (an export that checks a name shared by several records yields at most
  one row for it) is false: the click on \<^verbatim>\<open>Artificial Intelligence\<close> shows two records
  named \<^verbatim>\<open>Zeta\<close>, each with its checklist; with both checked the export has two rows
  for \<^verbatim>\<open>Zeta\<close>, both the record of booth \<^verbatim>\<open>A3\<close>.
\<close>

theorem duplicate_name_counterexample:
  "map_option data_rows
     (download_selected_category_data
        (snd (display_category_click_data (projr (create_visualizations sample_records))
                create_app (Some ''Artificial Intelligence'')))
        (Some 1) [[''Zeta''], [''Zeta'']])
   = Some [[''Zeta'', ''A3'', ''Korea'', [], ''desc'', []],
           [''Zeta'', ''A3'', ''Korea'', [], ''desc'', []]]"
  by code_simp

section \<open>Properties of a pipeline run\<close>

lemma those_map_list_all2:
  "those (map f xs) = Some ys \<Longrightarrow> list_all2 (\<lambda>x y. f x = Some y) xs ys"
  by (induction xs arbitrary: ys) (auto split: option.splits)

lemma process_data_list_all2:
  "process_data data = Inr items \<Longrightarrow> list_all2 (\<lambda>d it. process_exhibitor d = Inr it) data items"
  by (induction data arbitrary: items) (auto split: sum.splits)

lemma list_all2_in_right:
  "list_all2 P xs ys \<Longrightarrow> y \<in> set ys \<Longrightarrow> \<exists>x \<in> set xs. P x y"
  by (induction rule: list_all2_induct) auto

lemma typed_item_description:
  assumes "process_exhibitor d = Inr it" and "typed_item it = Some e"
  shows "has_description e = (if description_ko e = [] then 0 else 1)"
proof -
  from assms(1) have hd: "has_description it =
      (if truthy (dict_get d ''description_ko'' JNull) then 1 else 0)"
    and dk: "description_ko it = dict_get d ''description_ko'' (JStr [])"
    by (auto simp: process_exhibitor_def split: sum.splits)
  from assms(2) obtain s where s: "as_str (description_ko it) = Some s"
    and e: "description_ko e = s" "has_description e = has_description it"
    by (auto simp: typed_item_def Option.bind_eq_Some_conv)
  from s have "description_ko it = JStr s"
    by (cases "description_ko it") simp_all
  with dk have "truthy (dict_get d ''description_ko'' JNull) = (s \<noteq> [])"
    by (cases "map_of d ''description_ko''") (auto simp: dict_get_def)
  with hd e show ?thesis by simp
qed

lemma main_viz_data_Inr:
  assumes "main_viz_data data = Some (Inr viz)"
  obtains items records where "process_data data = Inr items"
    and "those (map typed_item items) = Some records"
    and "create_visualizations records = Inr viz"
  using assms by (auto simp: main_viz_data_def split: sum.splits)

lemma main_viz_data_description:
  assumes "main_viz_data data = Some (Inr viz)" and "e \<in> set (df viz)"
  shows "has_description e = (if description_ko e = [] then 0 else 1)"
proof -
  from assms(1) obtain items records where p: "process_data data = Inr items"
    and t: "those (map typed_item items) = Some records"
    and c: "create_visualizations records = Inr viz"
    by (rule main_viz_data_Inr)
  have "e \<in> set records"
    using assms(2) create_visualizations_Inr(2) [OF c] by simp
  then obtain it where it: "it \<in> set items" and te: "typed_item it = Some e"
    using list_all2_in_right [OF those_map_list_all2 [OF t]] by blast
  then obtain d where "process_exhibitor d = Inr it"
    using list_all2_in_right [OF process_data_list_all2 [OF p]] by blast
  then show ?thesis
    using te by (rule typed_item_description)
qed

lemma main_viz_data_length:
  assumes "main_viz_data data = Some (Inr viz)"
  shows "length (df viz) = length data"
proof -
  from assms(1) obtain items records where p: "process_data data = Inr items"
    and t: "those (map typed_item items) = Some records"
    and c: "create_visualizations records = Inr viz"
    by (rule main_viz_data_Inr)
  have "length records = length items"
    using those_map_list_all2 [OF t] by (simp add: list_all2_lengthD)
  then show ?thesis
    using process_data_length [OF p] create_visualizations_Inr(2) [OF c] by simp
qed

lemma value_counts_set:
  "set (value_counts column) = (\<lambda>v. (v, count_list column v)) ` set column"
  by (auto simp: value_counts_def by_count_desc_set Counter_row)

lemma value_counts_distinct: "distinct (map fst (value_counts column))"
  by (simp add: value_counts_def by_count_desc_distinct Counter_distinct)

lemma description_frame_sorted:
  "sorted_wrt (\<lambda>r s. snd s \<le> snd r) (description_frame records)"
  using by_count_desc_sorted_wrt [of "Counter (map has_description records)"]
  by (simp add: description_frame_def value_counts_def sorted_wrt_map)

lemma description_values:
  assumes "\<forall>e \<in> set records. has_description e = (if description_ko e = [] then 0 else 1)"
  shows "count_list (map has_description records) 1 =
           length (filter (\<lambda>e. description_ko e \<noteq> []) records)"
    and "count_list (map has_description records) 0 =
           length (filter (\<lambda>e. description_ko e = []) records)"
    and "set (map has_description records) \<subseteq> {0, 1}"
proof -
  have "filter (\<lambda>e. has_description e = 1) records = filter (\<lambda>e. description_ko e \<noteq> []) records"
    by (rule filter_cong) (simp_all add: assms)
  then show "count_list (map has_description records) 1 =
           length (filter (\<lambda>e. description_ko e \<noteq> []) records)"
    by (simp add: count_list_map_filter)
  have "filter (\<lambda>e. has_description e = 0) records = filter (\<lambda>e. description_ko e = []) records"
    by (rule filter_cong) (simp_all add: assms)
  then show "count_list (map has_description records) 0 =
           length (filter (\<lambda>e. description_ko e = []) records)"
    by (simp add: count_list_map_filter)
  show "set (map has_description records) \<subseteq> {0, 1}"
    using assms by auto
qed

lemma two_valued_set:
  assumes "S \<subseteq> {0, 1::nat}" and "(1 \<in> S) = A" and "(0 \<in> S) = B"
  shows "S = (if A then {1} else {}) \<union> (if B then {0} else {})"
  using assms by (cases A; cases B; simp; blast)

lemma description_frame_set:
  assumes "\<forall>e \<in> set records. has_description e = (if description_ko e = [] then 0 else 1)"
  shows "set (description_frame records) =
     (if 0 < length (filter (\<lambda>e. description_ko e \<noteq> []) records)
      then {(Some ''Yes'', length (filter (\<lambda>e. description_ko e \<noteq> []) records))} else {})
     \<union> (if 0 < length (filter (\<lambda>e. description_ko e = []) records)
        then {(Some ''No'', length (filter (\<lambda>e. description_ko e = []) records))} else {})"
proof -
  let ?hs = "map has_description records"
  define Y where "Y = length (filter (\<lambda>e. description_ko e \<noteq> []) records)"
  define N where "N = length (filter (\<lambda>e. description_ko e = []) records)"
  have c1: "count_list ?hs 1 = Y" and c0: "count_list ?hs 0 = N"
    and sub: "set ?hs \<subseteq> {0, 1}"
    unfolding Y_def N_def by (rule description_values [OF assms])+
  have m1: "(1 \<in> set ?hs) = (0 < Y)"
    using count_list_0_iff [of ?hs 1] c1 by auto
  have m0: "(0 \<in> set ?hs) = (0 < N)"
    using count_list_0_iff [of ?hs 0] c0 by auto
  have hs: "set ?hs = (if 0 < Y then {1} else {}) \<union> (if 0 < N then {0} else {})"
    using sub m1 m0 by (rule two_valued_set)
  have "set (description_frame records) = (\<lambda>v. (yes_no v, count_list ?hs v)) ` set ?hs"
    by (simp add: description_frame_def value_counts_set image_image)
  also have "\<dots> = (if 0 < Y then {(Some ''Yes'', Y)} else {})
                 \<union> (if 0 < N then {(Some ''No'', N)} else {})"
    unfolding hs using c1 c0 by (simp add: yes_no_def image_Un)
  finally show ?thesis
    unfolding Y_def N_def .
qed

lemma description_frame_distinct:
  assumes "\<forall>e \<in> set records. has_description e = (if description_ko e = [] then 0 else 1)"
  shows "distinct (description_frame records)"
proof -
  let ?hs = "map has_description records"
  have keys: "set (map fst (value_counts ?hs)) = set ?hs"
    by (simp only: set_map value_counts_set image_image fst_conv)
  have "inj_on yes_no {0, 1}"
    by (simp add: yes_no_def)
  then have "inj_on yes_no (set (map fst (value_counts ?hs)))"
    unfolding keys using description_values(3) [OF assms] by (rule inj_on_subset)
  then have "distinct (map yes_no (map fst (value_counts ?hs)))"
    using value_counts_distinct [of ?hs] by (simp only: distinct_map)
  moreover have "map fst (description_frame records) = map yes_no (map fst (value_counts ?hs))"
    by (simp add: description_frame_def comp_def)
  ultimately have "distinct (map fst (description_frame records))"
    by simp
  then show ?thesis
    by (simp add: distinct_map)
qed

text \<open>
  C7, as the code has it. For the tables of a pipeline run, the description split has
  one row per value of \<^verbatim>\<open>has_description\<close> that occurs: \<^verbatim>\<open>Yes\<close> with the number of
  records whose \<^verbatim>\<open>description_ko\<close> is non-empty, present when that number is
  positive, and \<^verbatim>\<open>No\<close> with the number of the others, present when that number is
  positive. The rows are distinct, in descending order of count, and the two numbers
  add up to the number of records.
\<close>

theorem description_split_entries:
  assumes "main_viz_data data = Some (Inr viz)"
  shows "set (description_counts viz) =
           (if 0 < length (filter (\<lambda>e. description_ko e \<noteq> []) (df viz))
            then {(Some ''Yes'', length (filter (\<lambda>e. description_ko e \<noteq> []) (df viz)))} else {})
           \<union> (if 0 < length (filter (\<lambda>e. description_ko e = []) (df viz))
              then {(Some ''No'', length (filter (\<lambda>e. description_ko e = []) (df viz)))} else {})
       \<and> distinct (description_counts viz)
       \<and> sorted_wrt (\<lambda>r s. snd s \<le> snd r) (description_counts viz)
       \<and> length (filter (\<lambda>e. description_ko e \<noteq> []) (df viz))
           + length (filter (\<lambda>e. description_ko e = []) (df viz)) = length data"
proof -
  from assms obtain items :: "raw_item list" and records
    where c: "create_visualizations records = Inr viz"
    by (rule main_viz_data_Inr)
  note v = create_visualizations_Inr [OF c]
  have inv: "\<forall>e \<in> set records. has_description e = (if description_ko e = [] then 0 else 1)"
    using main_viz_data_description [OF assms] v(2) by simp
  have "length (filter (\<lambda>e. description_ko e \<noteq> []) records)
           + length (filter (\<lambda>e. description_ko e = []) records) = length records"
    using sum_length_filter_compl [of "\<lambda>e. description_ko e \<noteq> []" records] by simp
  then have total: "length (filter (\<lambda>e. description_ko e \<noteq> []) (df viz))
           + length (filter (\<lambda>e. description_ko e = []) (df viz)) = length data"
    using main_viz_data_length [OF assms] v(2) by simp
  show ?thesis
    using description_frame_set [OF inv] description_frame_distinct [OF inv]
      description_frame_sorted [of records] total
    by (simp only: v(2,6))
qed

text \<open>
  C7 as stated (the split always has exactly the two entries \<^verbatim>\<open>Yes\<close> and \<^verbatim>\<open>No\<close>) is
  false: for a single exhibitor with a description the table is the one row
  \<^verbatim>\<open>('Yes', 1)\<close>.
\<close>

theorem description_split_counterexample:
  "map_option (map_sum id description_counts)
     (main_viz_data [raw_record ''Solo'' ''A'' ''None'' [] ''desc''])
   = Some (Inr [(Some ''Yes'', 1)])"
  by code_simp

section \<open>The properties on the sample data\<close>

lemma create_visualizations_nonempty:
  "records \<noteq> [] \<Longrightarrow> \<exists>viz. create_visualizations records = Inr viz"
  by (simp add: create_visualizations_def)

lemma sample_records_nonempty: "sample_records \<noteq> []"
  by (simp add: sample_records_def)

lemma category_sample_nonempty: "category_sample \<noteq> []"
  by (simp add: category_sample_def)

lemma pavilion_sample_nonempty: "pavilion_sample \<noteq> []"
  by (simp add: pavilion_sample_def)

text \<open>
  The statement of C2 on the four sample exhibitors: they are not the empty sequence,
  and the Aggregator returns.
\<close>

theorem empty_input_raises_witness:
  "sample_records \<noteq> [] \<and> (\<exists>viz. create_visualizations sample_records = Inr viz)
   \<and> process_data [] = Inr [] \<and> create_visualizations [] = Inl (KeyError ''categories'')"
  using empty_input_raises [of sample_records] sample_records_nonempty by simp

text \<open>
  C3 as stated (the true number of exhibitors without a top-30 category is kept as a
  value of its own beside the displayed one) is false: for the four sample exhibitors
  that number is 1, the table shows 3 for \<^verbatim>\<open>Others\<close>, and \<^verbatim>\<open>others_real_count\<close> is 507.
\<close>

theorem others_real_count_counterexample:
  "real_others_count sample_records = 1
   \<and> map_sum id others_real_count (create_visualizations sample_records) = Inr 507
   \<and> map_sum id top_categories (create_visualizations sample_records)
       = Inr [(''Artificial Intelligence'', 3), (''Cloud'', 2), (''Others'', 3)]"
proof (intro conjI)
  show "real_others_count sample_records = 1"
    by code_simp
  show "map_sum id others_real_count (create_visualizations sample_records) = Inr 507"
    by code_simp
  show "map_sum id top_categories (create_visualizations sample_records)
       = Inr [(''Artificial Intelligence'', 3), (''Cloud'', 2), (''Others'', 3)]"
    by code_simp
qed

lemma sample_pipeline: "main_viz_data sample_raw = Some (create_visualizations sample_records)"
  by (simp add: main_viz_data_def sample_raw_def sample_records_def raw_record_def
      normalised_def process_exhibitor_def dict_get_def typed_item_def)

text \<open>
  The statement of C3 on the sample data: with \<^verbatim>\<open>Artificial Intelligence\<close> in the top 30
  (count 3) the row \<^verbatim>\<open>Others\<close> shows 3 while one exhibitor has no top-30 category; on
  the thirty-one-category sample, which has no such category, it shows that number.
\<close>

theorem others_displayed_count_witness:
  "(\<exists>viz. create_visualizations sample_records = Inr viz
      \<and> (''Artificial Intelligence'', 3) \<in> set (top_30_categories sample_records)
      \<and> last (top_categories viz) = (''Others'', 3)
      \<and> real_others_count sample_records = 1
      \<and> others_real_count viz = 507)
   \<and> (\<exists>viz. create_visualizations category_sample = Inr viz
      \<and> ''Artificial Intelligence'' \<notin> fst ` set (top_30_categories category_sample)
      \<and> last (top_categories viz) = (''Others'', 1))"
proof -
  obtain v1 where v1: "create_visualizations sample_records = Inr v1"
    using create_visualizations_nonempty [OF sample_records_nonempty] by blast
  have ai: "(''Artificial Intelligence'', 3) \<in> set (top_30_categories sample_records)"
    by code_simp
  have real: "real_others_count sample_records = 1"
    by code_simp
  have "last (top_categories v1) = (''Others'', 3) \<and> others_real_count v1 = 507"
    using others_displayed_count [OF v1] ai by blast
  with v1 ai real have first: "\<exists>viz. create_visualizations sample_records = Inr viz
      \<and> (''Artificial Intelligence'', 3) \<in> set (top_30_categories sample_records)
      \<and> last (top_categories viz) = (''Others'', 3)
      \<and> real_others_count sample_records = 1
      \<and> others_real_count viz = 507"
    by blast
  obtain v2 where v2: "create_visualizations category_sample = Inr v2"
    using create_visualizations_nonempty [OF category_sample_nonempty] by blast
  have no_ai: "''Artificial Intelligence'' \<notin> fst ` set (top_30_categories category_sample)"
    by code_simp
  have real2: "real_others_count category_sample = 1"
    by code_simp
  have "last (top_categories v2) = (''Others'', real_others_count category_sample)"
    using others_displayed_count [OF v2] no_ai by blast
  with v2 no_ai real2 have second: "\<exists>viz. create_visualizations category_sample = Inr viz
      \<and> ''Artificial Intelligence'' \<notin> fst ` set (top_30_categories category_sample)
      \<and> last (top_categories viz) = (''Others'', 1)"
    by auto
  from first second show ?thesis by blast
qed

text \<open>
  C4 as stated (for every dataset the number of records shown for \<^verbatim>\<open>Others\<close> equals the
  real count tracked by the Aggregator) is false: on the thirty-one-category sample
  the click shows one record and the Aggregator returns 507.
\<close>

theorem others_drill_down_counterexample:
  "map_option length
     (fst (display_category_click_data (projr (create_visualizations category_sample))
             create_app (Some ''Others'')))
     = Some 1
   \<and> map_sum id others_real_count (create_visualizations category_sample) = Inr 507"
proof (intro conjI)
  show "map_option length
     (fst (display_category_click_data (projr (create_visualizations category_sample))
             create_app (Some ''Others'')))
     = Some 1"
    by code_simp
  show "map_sum id others_real_count (create_visualizations category_sample) = Inr 507"
    by code_simp
qed

text \<open>
  The statement of C4 on the thirty-one-category sample, which has no category
  \<^verbatim>\<open>Artificial Intelligence\<close>: the click on \<^verbatim>\<open>Others\<close> shows the one exhibitor whose only
  category is outside the top 30, the table shows 1 for \<^verbatim>\<open>Others\<close>, and the returned
  real count is 507.
\<close>

theorem others_drill_down_witness:
  "\<exists>viz shown. create_visualizations category_sample = Inr viz
     \<and> fst (display_category_click_data viz create_app (Some ''Others'')) = Some shown
     \<and> shown = [normalised ''Solo'' ''C'' ''None'' [numbered ''C'' 30] []]
     \<and> sorted (map company_name shown)
     \<and> ''Artificial Intelligence'' \<notin> fst ` set (top_30_categories category_sample)
     \<and> last (top_categories viz) = (''Others'', 1)
     \<and> others_real_count viz = 507
     \<and> length shown \<noteq> others_real_count viz"
proof -
  obtain viz where v: "create_visualizations category_sample = Inr viz"
    using create_visualizations_nonempty [OF category_sample_nonempty] by blast
  obtain shown
    where s: "fst (display_category_click_data viz create_app (Some ''Others'')) = Some shown"
      and m: "mset shown =
           filter_mset (\<lambda>e. set (categories e) \<inter> fst ` set (top_30_categories category_sample) = {})
             (mset category_sample)"
      and o: "sorted (map company_name shown)"
      and t: "''Artificial Intelligence'' \<notin> fst ` set (top_30_categories category_sample) \<longrightarrow>
            last (top_categories viz) = (''Others'', length shown)"
      and f: "others_real_count viz = 507"
      and q: "(length shown = others_real_count viz) = (length shown = 507)"
    using others_drill_down [OF v, of create_app] by blast
  have "filter (\<lambda>e. set (categories e) \<inter> fst ` set (top_30_categories category_sample) = {})
          category_sample = [normalised ''Solo'' ''C'' ''None'' [numbered ''C'' 30] []]"
    by code_simp
  then have "mset shown = {#normalised ''Solo'' ''C'' ''None'' [numbered ''C'' 30] []#}"
    using m by (simp flip: mset_filter)
  then have only: "shown = [normalised ''Solo'' ''C'' ''None'' [numbered ''C'' 30] []]"
    by simp
  have no_ai: "''Artificial Intelligence'' \<notin> fst ` set (top_30_categories category_sample)"
    by code_simp
  with t only have row: "last (top_categories viz) = (''Others'', 1)"
    by simp
  from q only have differs: "length shown \<noteq> others_real_count viz"
    by simp
  from v s only o no_ai row f differs show ?thesis by blast
qed

text \<open>
  The statement of C5 on the sample exhibitors: the click on \<^verbatim>\<open>Cloud\<close> shows \<^verbatim>\<open>Zeta\<close>
  before \<^verbatim>\<open>alpha\<close>, capital letters sorting before small ones.
\<close>

theorem category_drill_down_witness:
  "\<exists>viz shown. create_visualizations sample_records = Inr viz
     \<and> ''Cloud'' \<noteq> ''Others''
     \<and> fst (display_category_click_data viz create_app (Some ''Cloud'')) = Some shown
     \<and> shown = [normalised ''Zeta'' ''A3'' ''Korea'' [''Cloud'', ''Artificial Intelligence''] ''desc'',
                 normalised ''alpha'' ''A1'' ''Korea'' [''Artificial Intelligence'', ''Cloud''] ''desc'']
     \<and> sorted (map company_name shown)"
proof -
  obtain viz where v: "create_visualizations sample_records = Inr viz"
    using create_visualizations_nonempty [OF sample_records_nonempty] by blast
  have ne: "''Cloud'' \<noteq> ''Others''" by simp
  obtain shown
    where s: "fst (display_category_click_data viz create_app (Some ''Cloud'')) = Some shown"
      and o: "sorted (map company_name shown)"
    using category_drill_down [OF ne, of viz create_app] by blast
  have "sort_key company_name (filter (\<lambda>e. ''Cloud'' \<in> set (categories e)) sample_records)
      = [normalised ''Zeta'' ''A3'' ''Korea'' [''Cloud'', ''Artificial Intelligence''] ''desc'',
         normalised ''alpha'' ''A1'' ''Korea'' [''Artificial Intelligence'', ''Cloud''] ''desc'']"
    by code_simp
  then have "shown = [normalised ''Zeta'' ''A3'' ''Korea'' [''Cloud'', ''Artificial Intelligence''] ''desc'',
         normalised ''alpha'' ''A1'' ''Korea'' [''Artificial Intelligence'', ''Cloud''] ''desc'']"
    using s by (simp add: display_category_other [OF ne] create_visualizations_Inr(2) [OF v])
  with v ne s o show ?thesis by blast
qed

text \<open>
  The statement of C6 on the sixteen-pavilion sample: the table holds the fifteen
  pavilions with two exhibitors, and the pavilion left out has one.
\<close>

theorem pavilion_table_top_15_witness:
  "\<exists>viz. create_visualizations pavilion_sample = Inr viz
     \<and> map fst (pavilion_counts viz) = map (numbered ''P'') [0..<15]
     \<and> map snd (pavilion_counts viz) = replicate 15 2
     \<and> length (pavilion_counts viz) = 15
     \<and> normalised ''single'' ''C'' (numbered ''P'' 15) [] [] \<in> set pavilion_sample
     \<and> numbered ''P'' 15 \<noteq> ''None''
     \<and> numbered ''P'' 15 \<notin> fst ` set (pavilion_counts viz)
     \<and> length (filter (\<lambda>x. pavilion x = numbered ''P'' 15) pavilion_sample) = 1"
proof -
  obtain viz where v: "create_visualizations pavilion_sample = Inr viz"
    using create_visualizations_nonempty [OF pavilion_sample_nonempty] by blast
  let ?e = "normalised ''single'' ''C'' (numbered ''P'' 15) [] []"
  note T = pavilion_table_top_15 [OF v]
  have "pavilion_frame pavilion_sample = map (\<lambda>i. (numbered ''P'' i, 2)) [0..<15]"
    by code_simp
  then have tbl: "pavilion_counts viz = map (\<lambda>i. (numbered ''P'' i, 2)) [0..<15]"
    using create_visualizations_Inr(5) [OF v] by simp
  have names: "map fst (pavilion_counts viz) = map (numbered ''P'') [0..<15]"
    and counts: "map snd (pavilion_counts viz) = replicate 15 2"
    unfolding tbl by code_simp+
  have mem: "?e \<in> set pavilion_sample"
    by (simp add: pavilion_sample_def)
  have pe: "pavilion ?e = numbered ''P'' 15"
    by (simp add: normalised_def)
  have ne: "numbered ''P'' 15 \<noteq> ''None''"
    by (simp add: numbered_def)
  have out: "numbered ''P'' 15 \<notin> fst ` set (pavilion_counts viz)"
    unfolding set_map [symmetric] names by code_simp
  from T have "\<forall>e \<in> set pavilion_sample.
            pavilion e \<noteq> ''None'' \<longrightarrow> pavilion e \<notin> fst ` set (pavilion_counts viz) \<longrightarrow>
            length (pavilion_counts viz) = 15 \<and>
            (\<forall>row \<in> set (pavilion_counts viz).
               length (filter (\<lambda>x. pavilion x = pavilion e) pavilion_sample) \<le> snd row)"
    by blast
  from bspec [OF this mem]
  have "length (pavilion_counts viz) = 15 \<and>
        (\<forall>row \<in> set (pavilion_counts viz).
           length (filter (\<lambda>x. pavilion x = numbered ''P'' 15) pavilion_sample) \<le> snd row)"
    using ne out unfolding pe by blast
  then have len: "length (pavilion_counts viz) = 15" by blast
  have one: "length (filter (\<lambda>x. pavilion x = numbered ''P'' 15) pavilion_sample) = 1"
    by code_simp
  from v names counts len mem ne out one show ?thesis by blast
qed

text \<open>
  The statement of C7 on the sample run: two exhibitors with a Korean description, two
  without.
\<close>

theorem description_split_entries_witness:
  "\<exists>viz. main_viz_data sample_raw = Some (Inr viz)
     \<and> df viz = sample_records
     \<and> set (description_counts viz) = {(Some ''Yes'', 2), (Some ''No'', 2)}
     \<and> distinct (description_counts viz)
     \<and> length sample_raw = 4"
proof -
  obtain viz where v: "create_visualizations sample_records = Inr viz"
    using create_visualizations_nonempty [OF sample_records_nonempty] by blast
  then have run: "main_viz_data sample_raw = Some (Inr viz)"
    by (simp add: sample_pipeline)
  have d: "df viz = sample_records"
    using v by (rule create_visualizations_Inr)
  have yes: "length (filter (\<lambda>e. description_ko e \<noteq> []) sample_records) = 2"
    by code_simp
  have no: "length (filter (\<lambda>e. description_ko e = []) sample_records) = 2"
    by code_simp
  have "set (description_counts viz) = {(Some ''Yes'', 2), (Some ''No'', 2)}
      \<and> distinct (description_counts viz) \<and> 2 + 2 = length sample_raw"
    using description_split_entries [OF run] unfolding d yes no by auto
  with run d show ?thesis by auto
qed

lemma display_pavilion_click:
  "display_pavilion_click_data viz a (Some selected_pavilion) =
     (Some (sort_key company_name
              (filter (\<lambda>exhibitor. pavilion exhibitor = selected_pavilion) (df viz))),
      a\<lparr>selected_pavilion_exhibitors :=
           by_company_name
             (sort_key company_name
                (filter (\<lambda>exhibitor. pavilion exhibitor = selected_pavilion) (df viz)))\<rparr>)"
  by (simp add: display_pavilion_click_data_def Let_def)



text \<open>
  The statement of C9 on the sample exhibitors: the click on \<^verbatim>\<open>Artificial
  Intelligence\<close> shows the two records named \<^verbatim>\<open>Zeta\<close>, booths \<^verbatim>\<open>A2\<close> and \<^verbatim>\<open>A3\<close>; the
  slot keeps the one of booth \<^verbatim>\<open>A3\<close>, and with \<^verbatim>\<open>Zeta\<close> checked twice the export has
  two rows for it, both that record.
\<close>

theorem last_selection_keeps_one_record_witness:
  "\<exists>viz shown a' ex shown2 a2.
     create_visualizations sample_records = Inr viz
     \<and> display_category_click_data viz create_app (Some ''Artificial Intelligence'') = (Some shown, a')
     \<and> map booth_location (filter (\<lambda>e. company_name e = ''Zeta'') shown) = [''A2'', ''A3'']
     \<and> selected_category_exhibitors a' ''Zeta''
         = Some (normalised ''Zeta'' ''A3'' ''Korea'' [''Cloud'', ''Artificial Intelligence''] ''desc'')
     \<and> download_selected_category_data a' (Some 1) [[''Zeta''], [''alpha''], [''Zeta'']] = Some ex
     \<and> length (filter (\<lambda>row. hd row = ''Zeta'') (data_rows ex)) = 2
     \<and> set (filter (\<lambda>row. hd row = ''Zeta'') (data_rows ex))
         \<subseteq> {[''Zeta'', ''A3'', ''Korea'', [], ''desc'', []]}
     \<and> display_pavilion_click_data viz create_app (Some ''None'') = (Some shown2, a2)
     \<and> map booth_location shown2 = [''A4'', ''A2'']
     \<and> selected_pavilion_exhibitors a2 ''Zeta''
         = Some (normalised ''Zeta'' ''A2'' ''None'' [''Artificial Intelligence''] [])"
proof -
  obtain viz where v: "create_visualizations sample_records = Inr viz"
    using create_visualizations_nonempty [OF sample_records_nonempty] by blast
  have d: "df viz = sample_records"
    using v by (rule create_visualizations_Inr)
  have ne: "''Artificial Intelligence'' \<noteq> ''Others''" by simp
  let ?zeta2 = "normalised ''Zeta'' ''A2'' ''None'' [''Artificial Intelligence''] []"
  let ?zeta3 = "normalised ''Zeta'' ''A3'' ''Korea'' [''Cloud'', ''Artificial Intelligence''] ''desc''"
  let ?alpha = "normalised ''alpha'' ''A1'' ''Korea'' [''Artificial Intelligence'', ''Cloud''] ''desc''"
  let ?beta = "normalised ''Beta'' ''A4'' ''None'' [] []"
  let ?cv = "[[''Zeta''], [''alpha''], [''Zeta'']]"
  define shown where
    "shown = sort_key company_name
       (filter (\<lambda>e. ''Artificial Intelligence'' \<in> set (categories e)) (df viz))"
  define a' where "a' = create_app\<lparr>selected_category_exhibitors := by_company_name shown\<rparr>"
  define shown2 where
    "shown2 = sort_key company_name (filter (\<lambda>e. pavilion e = ''None'') (df viz))"
  define a2 where "a2 = create_app\<lparr>selected_pavilion_exhibitors := by_company_name shown2\<rparr>"
  have click: "display_category_click_data viz create_app (Some ''Artificial Intelligence'')
      = (Some shown, a')"
    unfolding shown_def a'_def by (rule display_category_other [OF ne])
  have click2: "display_pavilion_click_data viz create_app (Some ''None'') = (Some shown2, a2)"
    unfolding shown2_def a2_def by (rule display_pavilion_click)
  have shown: "shown = [?zeta2, ?zeta3, ?alpha]"
    unfolding shown_def d by code_simp
  have shown2: "shown2 = [?beta, ?zeta2]"
    unfolding shown2_def d by code_simp
  have zetas: "filter (\<lambda>e. company_name e = ''Zeta'') shown = [?zeta2, ?zeta3]"
    unfolding shown by (simp add: normalised_def)
  have zetas2: "filter (\<lambda>e. company_name e = ''Zeta'') shown2 = [?zeta2]"
    unfolding shown2 by (simp add: normalised_def)
  have booths: "map booth_location (filter (\<lambda>e. company_name e = ''Zeta'') shown) = [''A2'', ''A3'']"
    unfolding zetas by (simp add: normalised_def)
  have booths2: "map booth_location shown2 = [''A4'', ''A2'']"
    unfolding shown2 by (simp add: normalised_def)
  have sel: "selected_companies ?cv = [''Zeta'', ''alpha'', ''Zeta'']"
    by simp
  have "set (selected_companies ?cv) \<subseteq> company_name ` set shown"
    unfolding sel shown by (simp add: normalised_def)
  with export_after_drill_down [of 1 ?cv shown]
  obtain ex where ex0: "download_selected (by_company_name shown) (Some 1) ?cv = Some ex"
    unfolding sel by auto
  then have ex: "download_selected_category_data a' (Some 1) ?cv = Some ex"
    by (simp add: download_selected_category_data_def a'_def)
  note T = last_selection_keeps_one_record [where viz = viz and a = create_app
      and name = "''Zeta''" and n_clicks = "Some 1" and checkbox_values = ?cv]
  note T1 = T [where key = "''Artificial Intelligence''" and shown = shown and a' = a',
      THEN conjunct1, THEN mp, OF click]
  note T2 = T [where key = "''None''" and shown = shown2 and a' = a2,
      THEN conjunct2, THEN mp, OF click2]
  have kept: "selected_category_exhibitors a' ''Zeta'' = Some ?zeta3"
    using T1 [THEN conjunct1] unfolding zetas by simp
  have kept2: "selected_pavilion_exhibitors a2 ''Zeta'' = Some ?zeta2"
    using T2 [THEN conjunct1] unfolding zetas2 by simp
  from T1 [THEN conjunct2, THEN spec, THEN mp, OF ex]
  have same: "\<forall>row \<in> set (data_rows ex). hd row = ''Zeta'' \<longrightarrow> row = export_row ?zeta3"
    and count: "length (filter (\<lambda>row. hd row = ''Zeta'') (data_rows ex)) =
        (if ''Zeta'' \<in> company_name ` set shown then count_list (selected_companies ?cv) ''Zeta'' else 0)"
    unfolding zetas by simp_all
  have two: "length (filter (\<lambda>row. hd row = ''Zeta'') (data_rows ex)) = 2"
    using count unfolding sel shown by (simp add: normalised_def)
  have row: "export_row ?zeta3 = [''Zeta'', ''A3'', ''Korea'', [], ''desc'', []]"
    by (simp add: export_row_def normalised_def)
  have only: "set (filter (\<lambda>row. hd row = ''Zeta'') (data_rows ex))
         \<subseteq> {[''Zeta'', ''A3'', ''Korea'', [], ''desc'', []]}"
    using same unfolding row by auto
  from v click booths kept ex two only click2 booths2 kept2
  show ?thesis
    by (intro exI [of _ viz] exI [of _ shown] exI [of _ a'] exI [of _ ex]
        exI [of _ shown2] exI [of _ a2]) simp
qed

end
